theory Spec2Isabelle
  imports Complex_Main "HOL-Library.Char_ord" "HOL-Library.List_Lexorder"
begin

section \<open>Values, documents and Python helpers\<close>

text \<open>
  The backend of \<^verbatim>\<open>app.py\<close> keeps four MongoDB collections (hosts, guests,
  properties, book). A document is a Python dict from field names to values; an
  \<^verbatim>\<open>ObjectId\<close> is a 12-byte value, read here as a natural number below \<open>16 ^ 24\<close>
  and rendered by \<^verbatim>\<open>str\<close> as 24 lower-case hexadecimal digits. A Python
  \<^verbatim>\<open>str\<close> is \<open>BStr\<close> when it encodes to UTF-8 and \<open>BSurr\<close> when it holds a lone
  surrogate, which a JSON body can carry.
\<close>

type_synonym oid = nat

datatype bson =
  BNull | BBool bool | BNum int | BStr string | BSurr string | BBin string | BOid oid

type_synonym doc = "string \<rightharpoonup> bson"

datatype error =
  ZeroDivisionError | ValueError | KeyError | AttributeError | TypeError
  | InvalidId | DuplicateKeyError | WriteError | OperationFailure
  | OverflowError | UnicodeEncodeError

datatype json = JObj "(string \<times> bson) list" | JArr "(string \<times> bson) list list"

type_synonym response = "json \<times> nat"

definition ebind :: "error + 'a \<Rightarrow> ('a \<Rightarrow> error + 'b) \<Rightarrow> error + 'b" where
  "ebind m f = (case m of Inl e \<Rightarrow> Inl e | Inr x \<Rightarrow> f x)"

text \<open>\<^verbatim>\<open>d.get(k)\<close>: a missing key reads as \<^verbatim>\<open>None\<close>.\<close>

definition dict_get :: "doc \<Rightarrow> string \<Rightarrow> bson" where
  "dict_get d k = (case d k of None \<Rightarrow> BNull | Some v \<Rightarrow> v)"

text \<open>\<^verbatim>\<open>d[k]\<close>: a missing key raises \<^verbatim>\<open>KeyError\<close>.\<close>

definition dict_item :: "doc \<Rightarrow> string \<Rightarrow> error + bson" where
  "dict_item d k = (case d k of None \<Rightarrow> Inl KeyError | Some v \<Rightarrow> Inr v)"

text \<open>Python truthiness, as tested by \<^verbatim>\<open>if property_id:\<close>.\<close>

fun truthy :: "bson \<Rightarrow> bool" where
  "truthy BNull = False"
| "truthy (BBool b) = b"
| "truthy (BNum n) = (n \<noteq> 0)"
| "truthy (BStr s) = (s \<noteq> [])"
| "truthy (BSurr s) = True"
| "truthy (BBin s) = (s \<noteq> [])"
| "truthy (BOid i) = True"

subsection \<open>Hexadecimal rendering and parsing of ObjectIds\<close>

definition hex_char :: "nat \<Rightarrow> char" where
  "hex_char d = char_of (if d < 10 then 48 + d else 87 + d)"

definition hex_val :: "char \<Rightarrow> nat option" where
  "hex_val c =
     (let x = (of_char c :: nat) in
      if 48 \<le> x \<and> x \<le> 57 then Some (x - 48)
      else if 97 \<le> x \<and> x \<le> 102 then Some (x - 87)
      else if 65 \<le> x \<and> x \<le> 70 then Some (x - 55)
      else None)"

text \<open>
  \<^verbatim>\<open>bytes.fromhex\<close>: two hexadecimal digits per byte; ASCII white space before a
  pair of digits is skipped, and anything else is an error.
\<close>

definition is_space :: "char \<Rightarrow> bool" where
  "is_space c = (let x = (of_char c :: nat) in (9 \<le> x \<and> x \<le> 13) \<or> x = 32)"

fun fromhex :: "string \<Rightarrow> string option" where
  "fromhex [] = Some []"
| "fromhex [c] = (if is_space c then Some [] else None)"
| "fromhex (c # d # cs) =
     (if is_space c then fromhex (d # cs)
      else (case hex_val c of
              None \<Rightarrow> None
            | Some h \<Rightarrow>
                (case hex_val d of
                   None \<Rightarrow> None
                 | Some l \<Rightarrow>
                     (case fromhex cs of
                        None \<Rightarrow> None
                      | Some bs \<Rightarrow> Some (char_of (16 * h + l) # bs)))))"

text \<open>\<^verbatim>\<open>binascii.hexlify\<close>: two lower-case digits per byte.\<close>

fun hexlify :: "string \<Rightarrow> string" where
  "hexlify [] = []"
| "hexlify (c # cs) =
     hex_char ((of_char c :: nat) div 16) # hex_char ((of_char c :: nat) mod 16) # hexlify cs"

text \<open>The \<open>k\<close> bytes of a number, most significant first, and the number of a byte string.\<close>

fun to_bytes :: "nat \<Rightarrow> nat \<Rightarrow> string" where
  "to_bytes 0 n = []"
| "to_bytes (Suc k) n = to_bytes k (n div 256) @ [char_of (n mod 256)]"

definition bytes_val :: "string \<Rightarrow> nat" where
  "bytes_val s = foldl (\<lambda>acc c. 256 * acc + of_char c) 0 s"

text \<open>\<^verbatim>\<open>str(oid)\<close> for an ObjectId: the hexadecimal digits of its 12 bytes.\<close>

definition str_oid :: "oid \<Rightarrow> string" where
  "str_oid i = hexlify (to_bytes 12 i)"

text \<open>
  The identity that a byte string holds. Twelve bytes are the number they spell. A
  shorter string, which \<^verbatim>\<open>ObjectId\<close> accepts from a 24-character string with white
  space in it, is numbered from \<open>16 ^ 24\<close> on, apart from every 12-byte identity and from
  every other short one.
\<close>

definition oid_of_bytes :: "string \<Rightarrow> oid" where
  "oid_of_bytes bs =
     (if length bs = 12 then bytes_val bs else 16 ^ 24 + bytes_val (CHR 0x01 # bs))"

text \<open>
  \<^verbatim>\<open>ObjectId(x)\<close>: a string must have 24 characters that \<^verbatim>\<open>bytes.fromhex\<close>
  reads, otherwise \<^verbatim>\<open>InvalidId\<close> is raised; a byte string must have 12 bytes,
  otherwise \<^verbatim>\<open>TypeError\<close> is raised; an ObjectId is copied; any other value
  raises \<^verbatim>\<open>TypeError\<close>. (The code passes a path segment, or a truthy value of a
  request body; \<^verbatim>\<open>None\<close>, for which bson would draw a new identity, is never
  passed.)
\<close>

fun ObjectId :: "bson \<Rightarrow> error + oid" where
  "ObjectId (BStr s) =
     (if length s = 24
      then (case fromhex s of None \<Rightarrow> Inl InvalidId | Some bs \<Rightarrow> Inr (oid_of_bytes bs))
      else Inl InvalidId)"
| "ObjectId (BSurr s) = Inl InvalidId"
| "ObjectId (BBin s) = (if length s = 12 then Inr (oid_of_bytes s) else Inl TypeError)"
| "ObjectId (BOid i) = Inr i"
| "ObjectId v = Inl TypeError"

subsection \<open>Python's \<^verbatim>\<open>str\<close>\<close>

fun show_nat :: "nat \<Rightarrow> string" where
  "show_nat n =
     (if n < 10 then [char_of (48 + n)]
      else show_nat (n div 10) @ [char_of (48 + n mod 10)])"

declare show_nat.simps [simp del]

definition show_int :: "int \<Rightarrow> string" where
  "show_int i = (if i < 0 then CHR ''-'' # show_nat (nat (- i)) else show_nat (nat i))"

fun py_str :: "bson \<Rightarrow> string" where
  "py_str BNull = ''None''"
| "py_str (BBool b) = (if b then ''True'' else ''False'')"
| "py_str (BNum n) = show_int n"
| "py_str (BStr s) = s"
| "py_str (BSurr s) = s"
| "py_str (BBin s) = ''b'' @ [CHR 0x27] @ s @ [CHR 0x27]"
| "py_str (BOid i) = str_oid i"

section \<open>The document store\<close>

text \<open>
  A collection is the list of its documents in insertion order. MongoDB keeps
  \<^verbatim>\<open>_id\<close> unique in a collection: an insert with an \<^verbatim>\<open>_id\<close> already present
  raises \<^verbatim>\<open>DuplicateKeyError\<close>.
\<close>

definition has_id :: "oid \<Rightarrow> doc \<Rightarrow> bool" where
  "has_id i d = (d ''_id'' = Some (BOid i))"

text \<open>The query \<^verbatim>\<open>{k: v}\<close>; a query for null also matches a missing field.\<close>

definition field_eq :: "string \<Rightarrow> bson \<Rightarrow> doc \<Rightarrow> bool" where
  "field_eq k v d = (d k = Some v \<or> (v = BNull \<and> d k = None))"

definition find_one :: "(doc \<Rightarrow> bool) \<Rightarrow> doc list \<Rightarrow> doc option" where
  "find_one q ds = find q ds"

definition insert_one :: "doc \<Rightarrow> doc list \<Rightarrow> error + doc list" where
  "insert_one d ds =
     (if list_ex (\<lambda>e. e ''_id'' = d ''_id'') ds then Inl DuplicateKeyError
      else Inr (ds @ [d]))"

text \<open>
  What the driver cannot encode as BSON: an integer beyond 64 bits raises
  \<^verbatim>\<open>OverflowError\<close>, a string with a lone surrogate \<^verbatim>\<open>UnicodeEncodeError\<close>.
\<close>

fun encode_error :: "bson \<Rightarrow> error option" where
  "encode_error (BNum n) =
     (if - (2 ^ 63) \<le> n \<and> n < 2 ^ 63 then None else Some OverflowError)"
| "encode_error (BSurr s) = Some UnicodeEncodeError"
| "encode_error v = None"

fun first_encode_error :: "(string \<times> bson) list \<Rightarrow> error option" where
  "first_encode_error [] = None"
| "first_encode_error ((k, v) # kvs) =
     (case encode_error v of Some e \<Rightarrow> Some e | None \<Rightarrow> first_encode_error kvs)"

text \<open>
  The server's part of an update: \<open>data\<close> is merged into the first document matching
  \<open>q\<close>; no match is not an error. The server refuses to change \<^verbatim>\<open>_id\<close>.
\<close>

fun apply_set :: "(doc \<Rightarrow> bool) \<Rightarrow> doc \<Rightarrow> doc list \<Rightarrow> error + doc list" where
  "apply_set q data [] = Inr []"
| "apply_set q data (d # ds) =
     (if q d
      then (if data ''_id'' \<noteq> None \<and> data ''_id'' \<noteq> d ''_id'' then Inl WriteError
            else Inr ((d ++ data) # ds))
      else ebind (apply_set q data ds) (\<lambda>ds'. Inr (d # ds')))"

text \<open>
  \<^verbatim>\<open>update_one(q, {"$set": data})\<close>: \<open>data\<close> is the dict of the update, as the list
  of its items, each a top-level field name and its value. The driver encodes it before
  anything is sent, so a value it cannot encode raises before any write.
\<close>

definition update_one ::
  "(doc \<Rightarrow> bool) \<Rightarrow> (string \<times> bson) list \<Rightarrow> doc list \<Rightarrow> error + doc list" where
  "update_one q data ds =
     (case first_encode_error data of
        Some e \<Rightarrow> Inl e
      | None \<Rightarrow> apply_set q (map_of data) ds)"

text \<open>\<^verbatim>\<open>delete_one(q)\<close> removes the first match and reports \<^verbatim>\<open>deleted_count\<close>.\<close>

fun delete_one :: "(doc \<Rightarrow> bool) \<Rightarrow> doc list \<Rightarrow> doc list \<times> nat" where
  "delete_one q [] = ([], 0)"
| "delete_one q (d # ds) =
     (if q d then (ds, 1)
      else (case delete_one q ds of (ds', n) \<Rightarrow> (d # ds', n)))"

record world =
  hosts :: "doc list"
  guests :: "doc list"
  properties :: "doc list"
  book :: "doc list"
  oid_counter :: nat
  session :: "string \<rightharpoonup> string"

text \<open>
  \<^verbatim>\<open>ObjectId()\<close> with no argument yields an identity never handed out before; the
  generator is a counter.
\<close>

definition new_ObjectId :: "world \<Rightarrow> oid \<times> world" where
  "new_ObjectId w = (oid_counter w, w\<lparr>oid_counter := Suc (oid_counter w)\<rparr>)"

section \<open>Property listing\<close>

datatype cond = Regex string | Equals bson

type_synonym query = "(string \<times> cond) list"

text \<open>
  The regular-expression engine of the server is outside the repository: \<open>rx pat s\<close>
  says whether pattern \<open>pat\<close> is found in \<open>s\<close>, ignoring case.
\<close>

fun matches_cond :: "(string \<Rightarrow> string \<Rightarrow> bool) \<Rightarrow> doc \<Rightarrow> string \<times> cond \<Rightarrow> bool" where
  "matches_cond rx d (k, Regex pat) = (case d k of Some (BStr s) \<Rightarrow> rx pat s | _ \<Rightarrow> False)"
| "matches_cond rx d (k, Equals v) = field_eq k v d"

definition matches :: "(string \<Rightarrow> string \<Rightarrow> bool) \<Rightarrow> query \<Rightarrow> doc \<Rightarrow> bool" where
  "matches rx q d = list_all (matches_cond rx d) q"

definition count_documents :: "(string \<Rightarrow> string \<Rightarrow> bool) \<Rightarrow> query \<Rightarrow> doc list \<Rightarrow> int" where
  "count_documents rx q ds = int (length (filter (matches rx q) ds))"

definition filter_query :: "string \<Rightarrow> string \<Rightarrow> string \<Rightarrow> query" where
  "filter_query title_filter property_type_filter location_filter =
     (if title_filter \<noteq> [] then [(''title'', Regex title_filter)] else [])
     @ (if property_type_filter \<noteq> [] then [(''property_type'', Equals (BStr property_type_filter))] else [])
     @ (if location_filter \<noteq> [] then [(''location'', Equals (BStr location_filter))] else [])"

text \<open>
  Lines 158 to 161 of \<^verbatim>\<open>get_all_properties\<close>: total pages, clamped page, skip.
  Python's \<^verbatim>\<open>//\<close> is floor division, as \<open>div\<close> on \<open>int\<close>, and raises on a zero divisor.
  The result is (total_pages, page, skip).
\<close>

definition paginate :: "int \<Rightarrow> int \<Rightarrow> int \<Rightarrow> error + (int \<times> int \<times> int)" where
  "paginate total_properties page per_page =
     (if per_page = 0 then Inl ZeroDivisionError
      else
        let total_pages = (total_properties - 1) div per_page + 1;
            page1 = max 1 (min page total_pages);
            skip = (page1 - 1) * per_page;
            skip1 = max 0 skip
        in Inr (total_pages, page1, skip1))"












section \<open>Signup and login\<close>

text \<open>
  The bcrypt library is outside the repository: \<open>hashpw pw salt\<close> is the salted hash
  and \<open>checkpw pw h\<close> verifies a password against a stored hash, or raises (a stored
  value that is no bcrypt hash raises \<^verbatim>\<open>ValueError\<close>). The salt of
  \<^verbatim>\<open>gensalt()\<close> is random, and is an argument of signup.
\<close>

record bcrypt =
  hashpw :: "string \<Rightarrow> string \<Rightarrow> string"
  checkpw :: "string \<Rightarrow> string \<Rightarrow> error + bool"

text \<open>
  \<^verbatim>\<open>password.encode('utf-8')\<close>: only a string has the method, and a lone
  surrogate does not encode.
\<close>

fun encode :: "bson \<Rightarrow> error + string" where
  "encode (BStr s) = Inr s"
| "encode (BSurr s) = Inl UnicodeEncodeError"
| "encode v = Inl AttributeError"

definition hash_password :: "bcrypt \<Rightarrow> string \<Rightarrow> bson \<Rightarrow> error + string" where
  "hash_password bc salt password = ebind (encode password) (\<lambda>b. Inr (hashpw bc b salt))"

definition verify_password :: "bcrypt \<Rightarrow> bson \<Rightarrow> bson \<Rightarrow> error + bool" where
  "verify_password bc stored_hash password =
     ebind (encode password) (\<lambda>b.
       case stored_hash of BBin h \<Rightarrow> checkpw bc b h | _ \<Rightarrow> Inl TypeError)"

definition email_exists :: response where
  "email_exists = (JObj [(''error'', BStr ''Email already exists'')], 400)"

definition invalid_credentials :: response where
  "invalid_credentials = (JObj [(''error'', BStr ''Invalid credentials'')], 401)"

definition host_signup :: "bcrypt \<Rightarrow> string \<Rightarrow> world \<Rightarrow> doc \<Rightarrow> (error + response) \<times> world" where
  "host_signup bc salt w data =
     (let email = dict_get data ''email'';
          password = dict_get data ''password''
      in if find_one (field_eq ''email'' email) (hosts w) \<noteq> None
         then (Inr email_exists, w)
         else (case hash_password bc salt password of
                 Inl e \<Rightarrow> (Inl e, w)
               | Inr hashed_password \<Rightarrow>
                   (case new_ObjectId w of (host_id, w1) \<Rightarrow>
                      (case insert_one
                              [''_id'' \<mapsto> BOid host_id, ''email'' \<mapsto> email,
                               ''password'' \<mapsto> BBin hashed_password] (hosts w1) of
                         Inl e \<Rightarrow> (Inl e, w1)
                       | Inr hs \<Rightarrow>
                           (Inr (JObj [(''host_id'', BStr (str_oid host_id))], 201),
                            w1\<lparr>hosts := hs\<rparr>)))))"

definition guest_signup :: "bcrypt \<Rightarrow> string \<Rightarrow> world \<Rightarrow> doc \<Rightarrow> (error + response) \<times> world" where
  "guest_signup bc salt w data =
     (let email = dict_get data ''email'';
          password = dict_get data ''password''
      in if find_one (field_eq ''email'' email) (guests w) \<noteq> None
         then (Inr email_exists, w)
         else (case hash_password bc salt password of
                 Inl e \<Rightarrow> (Inl e, w)
               | Inr hashed_password \<Rightarrow>
                   (case new_ObjectId w of (guest_id, w1) \<Rightarrow>
                      (case insert_one
                              [''_id'' \<mapsto> BOid guest_id, ''email'' \<mapsto> email,
                               ''password'' \<mapsto> BBin hashed_password] (guests w1) of
                         Inl e \<Rightarrow> (Inl e, w1)
                       | Inr gs \<Rightarrow>
                           (Inr (JObj [(''guest_id'', BStr (str_oid guest_id))], 201),
                            w1\<lparr>guests := gs\<rparr>)))))"


definition guest_login :: "bcrypt \<Rightarrow> world \<Rightarrow> doc \<Rightarrow> (error + response) \<times> world" where
  "guest_login bc w data =
     (let email = dict_get data ''email'';
          password = dict_get data ''password''
      in case find_one (field_eq ''email'' email) (guests w) of
           None \<Rightarrow> (Inr invalid_credentials, w)
         | Some guest \<Rightarrow>
             (case ebind (dict_item guest ''password'') (\<lambda>stored. verify_password bc stored password) of
                Inl e \<Rightarrow> (Inl e, w)
              | Inr ok \<Rightarrow>
                  if \<not> ok then (Inr invalid_credentials, w)
                  else (Inr (JObj [(''message'', BStr ''Guest login successful'')], 200),
                        w\<lparr>session := (session w)(''user_role'' \<mapsto> ''guest'')\<rparr>)))"

section \<open>Property update\<close>

definition property_updated :: response where
  "property_updated = (JObj [(''message'', BStr ''Property updated successfully'')], 200)"

text \<open>
  \<^verbatim>\<open>update_property\<close>: \<open>data\<close> is the JSON object of the request body, as the
  list of its items.
\<close>

definition update_property ::
  "world \<Rightarrow> string \<Rightarrow> (string \<times> bson) list \<Rightarrow> (error + response) \<times> world" where
  "update_property w property_id data =
     (case ObjectId (BStr property_id) of
        Inl e \<Rightarrow> (Inl e, w)
      | Inr i \<Rightarrow>
          (case update_one (has_id i) data (properties w) of
             Inl e \<Rightarrow> (Inl e, w)
           | Inr ps \<Rightarrow> (Inr property_updated, w\<lparr>properties := ps\<rparr>)))"

section \<open>Bookings\<close>

definition booking_deleted :: response where
  "booking_deleted = (JObj [(''message'', BStr ''Booking data deleted successfully'')], 200)"

definition booking_not_found :: response where
  "booking_not_found = (JObj [(''message'', BStr ''Booking data not found'')], 404)"

text \<open>
  The dict of a \<^verbatim>\<open>Booking\<close> object, as \<^verbatim>\<open>booking.__dict__\<close> hands it to the store;
  \<open>i\<close> is the ObjectId drawn by the constructor.
\<close>

definition Booking :: "oid \<Rightarrow> bson \<Rightarrow> bson \<Rightarrow> bson \<Rightarrow> bson \<Rightarrow> bson \<Rightarrow> bson \<Rightarrow> bson \<Rightarrow> doc" where
  "Booking i property_img property_id property_title price_per_night property_location book_date end_date =
     [''_id'' \<mapsto> BOid i, ''property_id'' \<mapsto> property_id,
      ''property_title'' \<mapsto> property_title, ''price_per_night'' \<mapsto> price_per_night,
      ''property_location'' \<mapsto> property_location, ''property_img'' \<mapsto> property_img,
      ''book_date'' \<mapsto> book_date, ''end_date'' \<mapsto> end_date]"

definition booking_created :: "oid \<Rightarrow> response" where
  "booking_created i = (JObj [(''booking_id'', BStr (str_oid i))], 201)"

text \<open>
  \<^verbatim>\<open>post_property_to_book_collection\<close>: the booking is inserted first; the status
  write follows, so an exception raised by \<^verbatim>\<open>ObjectId(property_id)\<close> leaves the
  booking stored.
\<close>

definition post_property_to_book_collection :: "world \<Rightarrow> doc \<Rightarrow> (error + response) \<times> world" where
  "post_property_to_book_collection w data =
     (let property_id = dict_get data ''property_id'';
          property_title = dict_get data ''property_title'';
          price_per_night = dict_get data ''price_per_night'';
          property_location = dict_get data ''property_location'';
          property_img = dict_get data ''property_img'';
          book_date = dict_get data ''book_date'';
          end_date = dict_get data ''end_date''
      in case new_ObjectId w of (booking_id, w1) \<Rightarrow>
           (case insert_one
                   (Booking booking_id property_img property_id property_title price_per_night
                      property_location book_date end_date) (book w1) of
              Inl e \<Rightarrow> (Inl e, w1)
            | Inr bs \<Rightarrow>
                (let w2 = w1\<lparr>book := bs\<rparr>
                 in if truthy property_id
                    then (case ObjectId property_id of
                            Inl e \<Rightarrow> (Inl e, w2)
                          | Inr p \<Rightarrow>
                              (case update_one (has_id p) [(''status'', BBool False)] (properties w2) of
                                 Inl e \<Rightarrow> (Inl e, w2)
                               | Inr ps \<Rightarrow> (Inr (booking_created booking_id), w2\<lparr>properties := ps\<rparr>)))
                    else (Inr (booking_created booking_id), w2))))"

definition delete_book_data :: "world \<Rightarrow> string \<Rightarrow> (error + response) \<times> world" where
  "delete_book_data w booking_id =
     (case ObjectId (BStr booking_id) of
        Inl e \<Rightarrow> (Inl e, w)
      | Inr b \<Rightarrow>
          (case find_one (has_id b) (book w) of
             None \<Rightarrow> (Inr booking_not_found, w)
           | Some book_entry \<Rightarrow>
               (let property_id = dict_get book_entry ''property_id''
                in case delete_one (has_id b) (book w) of (bs, deleted_count) \<Rightarrow>
                     (let w1 = w\<lparr>book := bs\<rparr>
                      in if deleted_count > 0
                         then (if truthy property_id
                               then (case ObjectId property_id of
                                       Inl e \<Rightarrow> (Inl e, w1)
                                     | Inr p \<Rightarrow>
                                         (case update_one (has_id p) [(''status'', BBool True)] (properties w1) of
                                            Inl e \<Rightarrow> (Inl e, w1)
                                          | Inr ps \<Rightarrow> (Inr booking_deleted, w1\<lparr>properties := ps\<rparr>)))
                               else (Inr booking_deleted, w1))
                         else (Inr booking_not_found, w1)))))"

section \<open>Store invariants\<close>

text \<open>
  Every stored \<^verbatim>\<open>_id\<close> is an ObjectId the generator has already handed out, no two
  documents of a collection share one, and the generator stays within 12 bytes.
\<close>

definition ids_below :: "nat \<Rightarrow> doc list \<Rightarrow> bool" where
  "ids_below n ds = list_all (\<lambda>d. case d ''_id'' of Some (BOid i) \<Rightarrow> i < n | _ \<Rightarrow> False) ds"

definition distinct_ids :: "doc list \<Rightarrow> bool" where
  "distinct_ids ds = distinct (map (\<lambda>d. d ''_id'') ds)"

definition wf :: "world \<Rightarrow> bool" where
  "wf w =
     (oid_counter w < 16 ^ 24
      \<and> ids_below (oid_counter w) (hosts w) \<and> distinct_ids (hosts w)
      \<and> ids_below (oid_counter w) (guests w) \<and> distinct_ids (guests w)
      \<and> ids_below (oid_counter w) (properties w) \<and> distinct_ids (properties w)
      \<and> ids_below (oid_counter w) (book w) \<and> distinct_ids (book w))"


text \<open>The status flag of the property with identity \<open>p\<close>, if it is in the catalog.\<close>

definition status_of :: "world \<Rightarrow> oid \<Rightarrow> bson option" where
  "status_of w p = (case find_one (has_id p) (properties w) of None \<Rightarrow> None | Some d \<Rightarrow> d ''status'')"

text \<open>
  A booking references property \<open>p\<close> when the booking ledger would write to \<open>p\<close> for it:
  its \<^verbatim>\<open>property_id\<close> is truthy and reads as the ObjectId \<open>p\<close>.
\<close>

definition refers_to :: "oid \<Rightarrow> doc \<Rightarrow> bool" where
  "refers_to p b =
     (truthy (dict_get b ''property_id'') \<and> ObjectId (dict_get b ''property_id'') = Inr p)"

definition booked :: "world \<Rightarrow> oid \<Rightarrow> bool" where
  "booked w p = list_ex (refers_to p) (book w)"

text \<open>
  The availability invariant of the data model: a property's status is false while a
  booking references it, and true otherwise.
\<close>

definition availability_inv :: "world \<Rightarrow> bool" where
  "availability_inv w =
     list_all (\<lambda>d. case d ''_id'' of
                     Some (BOid p) \<Rightarrow> d ''status'' = Some (BBool (\<not> booked w p))
                   | _ \<Rightarrow> True) (properties w)"

text \<open>The booking document that a request body \<open>data\<close> yields under identity \<open>i\<close>.\<close>

definition booking_of :: "oid \<Rightarrow> doc \<Rightarrow> doc" where
  "booking_of i data =
     Booking i (dict_get data ''property_img'') (dict_get data ''property_id'')
       (dict_get data ''property_title'') (dict_get data ''price_per_night'')
       (dict_get data ''property_location'') (dict_get data ''book_date'')
       (dict_get data ''end_date'')"

text \<open>The first document matching \<open>q\<close> merged with \<open>data\<close>: what a successful update leaves.\<close>

fun merge_first :: "(doc \<Rightarrow> bool) \<Rightarrow> doc \<Rightarrow> doc list \<Rightarrow> doc list" where
  "merge_first q data [] = []"
| "merge_first q data (d # ds) = (if q d then (d ++ data) # ds else d # merge_first q data ds)"

section \<open>A small store for concrete runs\<close>

text \<open>
  A literal, case-insensitive substring search stands for the regular-expression
  engine in concrete runs, and a transparent salted hash for bcrypt.
\<close>

definition lower_char :: "char \<Rightarrow> char" where
  "lower_char c =
     (let x = (of_char c :: nat) in if 65 \<le> x \<and> x \<le> 90 then char_of (x + 32) else c)"

fun starts_with :: "string \<Rightarrow> string \<Rightarrow> bool" where
  "starts_with [] s = True"
| "starts_with (p # ps) [] = False"
| "starts_with (p # ps) (c # cs) = (p = c \<and> starts_with ps cs)"

fun contains :: "string \<Rightarrow> string \<Rightarrow> bool" where
  "contains pat [] = (pat = [])"
| "contains pat (c # cs) = (starts_with pat (c # cs) \<or> contains pat cs)"

definition literal_rx :: "string \<Rightarrow> string \<Rightarrow> bool" where
  "literal_rx pat s = contains (map lower_char pat) (map lower_char s)"

definition demo_bcrypt :: bcrypt where
  "demo_bcrypt =
     \<lparr>hashpw = (\<lambda>pw salt. salt @ [CHR '':''] @ pw),
      checkpw = (\<lambda>pw h. if CHR '':'' \<in> set h
                        then Inr (dropWhile (\<lambda>c. c \<noteq> CHR '':'') h = CHR '':'' # pw)
                        else Inl ValueError)\<rparr>"


definition demo_property :: "oid \<Rightarrow> string \<Rightarrow> int \<Rightarrow> bool \<Rightarrow> doc" where
  "demo_property i t price st =
     [''_id'' \<mapsto> BOid i, ''title'' \<mapsto> BStr t, ''location'' \<mapsto> BStr ''Goa'',
      ''property_type'' \<mapsto> BStr ''villa'', ''description'' \<mapsto> BStr [],
      ''price_per_night'' \<mapsto> BNum price, ''status'' \<mapsto> BBool st, ''img'' \<mapsto> BStr []]"

definition demo_world :: world where
  "demo_world =
     \<lparr>hosts = [[''_id'' \<mapsto> BOid 0, ''email'' \<mapsto> BStr ''ann@example.org'',
                ''password'' \<mapsto> BBin ''s1:secret'']],
      guests = [[''_id'' \<mapsto> BOid 4, ''email'' \<mapsto> BStr ''bob@example.org'',
                 ''password'' \<mapsto> BBin ''s2:hunter2'']],
      properties = [demo_property 1 ''Sea view'' 50 True, demo_property 2 ''Hill house'' 80 True,
                    demo_property 3 ''Old town'' 30 True],
      book = [],
      oid_counter = 5,
      session = Map.empty\<rparr>"

text \<open>A booking request for the first property of the small store.\<close>

definition demo_request :: doc where
  "demo_request =
     [''property_id'' \<mapsto> BStr ''000000000000000000000001'',
      ''property_title'' \<mapsto> BStr ''Sea view'', ''book_date'' \<mapsto> BStr ''2024-01-05'',
      ''end_date'' \<mapsto> BStr ''2024-01-09'']"

text \<open>The small store after that request: one booking, and the first property taken.\<close>

definition demo_booked :: world where
  "demo_booked =
     demo_world
       \<lparr>properties := [demo_property 1 ''Sea view'' 50 False, demo_property 2 ''Hill house'' 80 True,
                       demo_property 3 ''Old town'' 30 True],
        book := [booking_of 5 demo_request],
        oid_counter := 6\<rparr>"

section \<open>Pagination of the listing\<close>

lemma total_pages_ceiling:
  fixes t pp :: int
  assumes "0 < pp"
  shows "(t - 1) div pp + 1 = \<lceil>of_int t / (of_int pp :: real)\<rceil>"
proof -
  define q where "q = (t - 1) div pp"
  define r where "r = (t - 1) mod pp"
  have t: "t = pp * q + r + 1"
    unfolding q_def r_def by simp
  have r: "0 \<le> r" "r < pp"
    using assms by (simp_all add: r_def)
  have lo: "q * pp < t"
    using t r by (simp add: mult.commute)
  have hi: "t \<le> (q + 1) * pp"
    using t r by (simp add: algebra_simps)
  have pp: "0 < (of_int pp :: real)"
    using assms by simp
  have "(of_int (q * pp) :: real) < of_int t"
    using lo by (simp only: of_int_less_iff)
  then have lo': "of_int (q + 1) - 1 < of_int t / (of_int pp :: real)"
    using pp by (simp add: pos_less_divide_eq)
  have "(of_int t :: real) \<le> of_int ((q + 1) * pp)"
    using hi by (simp only: of_int_le_iff)
  then have hi': "of_int t / (of_int pp :: real) \<le> of_int (q + 1)"
    using pp by (simp add: pos_divide_le_eq)
  have "\<lceil>of_int t / (of_int pp :: real)\<rceil> = q + 1"
    using lo' hi' by (rule ceiling_unique)
  then show ?thesis
    by (simp add: q_def)
qed

lemma paginate_value:
  assumes "0 < per_page"
  shows "paginate n page per_page =
           Inr (\<lceil>of_int n / (of_int per_page :: real)\<rceil>,
                max 1 (min page \<lceil>of_int n / (of_int per_page :: real)\<rceil>),
                max 0 ((max 1 (min page \<lceil>of_int n / (of_int per_page :: real)\<rceil>) - 1) * per_page))"
  using assms total_pages_ceiling [OF assms, of n]
  by (simp add: paginate_def Let_def)


text \<open>
  Claim C1. For every \<open>per_page > 0\<close>, every requested page and every filter
  combination, the listing's pagination does not fail, the clamped page lies between 1
  and \<open>max 1 \<lceil>total_count / per_page\<rceil>\<close>, and the skip offset is not negative, where
  \<open>total_count\<close> is the number of properties matching the filters.
\<close>

theorem list_page_clamped:
  assumes "0 < per_page"
  shows "case paginate (count_documents rx (filter_query title_filter property_type_filter location_filter)
                          (properties w)) page per_page of
           Inl e \<Rightarrow> False
         | Inr (total_pages, page1, skip) \<Rightarrow>
             1 \<le> page1
             \<and> page1 \<le> max 1 \<lceil>of_int (count_documents rx
                    (filter_query title_filter property_type_filter location_filter) (properties w))
                  / (of_int per_page :: real)\<rceil>
             \<and> 0 \<le> skip"
  by (simp add: paginate_value [OF assms])

theorem list_page_clamped_witness:
  "0 < (2::int) \<and>
   (case paginate (count_documents literal_rx (filter_query ''o'' ''villa'' []) (properties demo_world)) 7 2 of
      Inl e \<Rightarrow> False
    | Inr (total_pages, page1, skip) \<Rightarrow>
        1 \<le> page1
        \<and> page1 \<le> max 1 \<lceil>of_int (count_documents literal_rx (filter_query ''o'' ''villa'' [])
                                   (properties demo_world)) / (of_int 2 :: real)\<rceil>
        \<and> 0 \<le> skip)"
  using list_page_clamped [of 2 literal_rx "''o''" "''villa''" "[]" demo_world 7]
  by simp

text \<open>
  Claim C2, as stated, asks for \<open>total_pages \<ge> 1\<close> even when nothing matches. The code
  computes \<open>(total_properties - 1) // per_page + 1\<close>, which is 0 for an empty result:
  with no property located in Pune, page 1 and 9 per page give total pages 0.
\<close>

theorem total_pages_zero_counterexample:
  "paginate (count_documents literal_rx (filter_query [] [] ''Pune'') (properties demo_world)) 1 9
     = Inr (0, 1, 0)"
  by (simp add: paginate_def count_documents_def filter_query_def matches_def demo_world_def
      demo_property_def field_eq_def)

text \<open>
  Claim C2, amended. For every \<open>per_page > 0\<close> and every property store, the listing
  computes \<open>total_pages = \<lceil>total_count / per_page\<rceil>\<close> with no minimum (it is 0 when
  nothing matches), then clamps the page to \<open>max 1 (min page total_pages)\<close>, which is at
  least 1, then computes \<open>skip = (page - 1) * per_page\<close>.
\<close>

theorem total_pages_clamp_skip:
  assumes "0 < per_page"
  shows "paginate (count_documents rx (filter_query title_filter property_type_filter location_filter)
                     (properties w)) page per_page =
           Inr (\<lceil>of_int (count_documents rx (filter_query title_filter property_type_filter location_filter)
                          (properties w)) / (of_int per_page :: real)\<rceil>,
                max 1 (min page \<lceil>of_int (count_documents rx
                     (filter_query title_filter property_type_filter location_filter)
                          (properties w)) / (of_int per_page :: real)\<rceil>),
                (max 1 (min page \<lceil>of_int (count_documents rx
                     (filter_query title_filter property_type_filter location_filter)
                          (properties w)) / (of_int per_page :: real)\<rceil>) - 1) * per_page)"
proof -
  have "0 \<le> (max 1 (min page \<lceil>of_int (count_documents rx
                     (filter_query title_filter property_type_filter location_filter)
                          (properties w)) / (of_int per_page :: real)\<rceil>) - 1) * per_page"
    using assms by simp
  then show ?thesis
    by (simp add: paginate_value [OF assms])
qed

theorem total_pages_clamp_skip_witness:
  "0 < (2::int) \<and>
   paginate (count_documents literal_rx (filter_query [] [] []) (properties demo_world)) 7 2
     = Inr (2, 2, 2)"
proof -
  have c: "count_documents literal_rx (filter_query [] [] []) (properties demo_world) = 3"
    by (simp add: count_documents_def filter_query_def matches_def demo_world_def)
  have "\<lceil>(3::real) / 2\<rceil> = 2"
    by (simp add: ceiling_eq_iff)
  then show ?thesis
    using total_pages_clamp_skip [of 2 literal_rx "[]" "[]" "[]" demo_world 7]
    by (simp add: c)
qed



section \<open>ObjectId strings\<close>

text \<open>Parsing the rendering of an ObjectId gives the ObjectId back.\<close>

lemma hex_val_hex_char: "d < 16 \<Longrightarrow> hex_val (hex_char d) = Some d"
  by (auto simp: hex_val_def hex_char_def Let_def)

lemma of_char_less_256: "(of_char c :: nat) < 256"
proof -
  have "(of_char c :: nat) mod 256 = of_char c"
    by simp
  then show ?thesis
    by (metis mod_less_divisor zero_less_numeral)
qed

lemma hex_char_not_space: "d < 16 \<Longrightarrow> \<not> is_space (hex_char d)"
  by (auto simp: is_space_def hex_char_def Let_def)

lemma fromhex_hexlify: "fromhex (hexlify bs) = Some bs"
proof (induction bs)
  case Nil
  show ?case by simp
next
  case (Cons c bs)
  define n where "n = (of_char c :: nat)"
  have n: "n < 256"
    unfolding n_def by (rule of_char_less_256)
  then have hi: "n div 16 < 16" and lo: "n mod 16 < 16"
    by simp_all
  have whole: "char_of (16 * (n div 16) + n mod 16) = c"
    by (simp add: n_def)
  show ?case
    using Cons.IH whole
    by (simp add: hex_char_not_space [OF hi] hex_val_hex_char [OF hi] hex_val_hex_char [OF lo]
        flip: n_def)
qed

lemma length_hexlify: "length (hexlify bs) = 2 * length bs"
  by (induction bs) auto

lemma length_to_bytes: "length (to_bytes k n) = k"
  by (induction k arbitrary: n) auto

lemma bytes_val_snoc: "bytes_val (xs @ [c]) = 256 * bytes_val xs + of_char c"
  by (simp add: bytes_val_def)

lemma bytes_val_to_bytes: "bytes_val (to_bytes k n) = n mod 256 ^ k"
proof (induction k arbitrary: n)
  case 0
  show ?case by (simp add: bytes_val_def)
next
  case (Suc k)
  have "n mod (256 * 256 ^ k) = 256 * (n div 256 mod 256 ^ k) + n mod 256"
    by (rule mod_mult2_eq)
  then show ?case
    by (simp add: bytes_val_snoc Suc.IH)
qed

lemma ObjectId_str_oid: "n < 16 ^ 24 \<Longrightarrow> ObjectId (BStr (str_oid n)) = Inr n"
  by (simp add: str_oid_def length_hexlify length_to_bytes fromhex_hexlify oid_of_bytes_def
      bytes_val_to_bytes)

lemma ObjectId_truthy: "ObjectId v = Inr p \<Longrightarrow> truthy v"
  by (cases v) (auto split: if_splits)

section \<open>Store operations\<close>

lemma find_one_None: "find_one q ds = None \<longleftrightarrow> (\<forall>d\<in>set ds. \<not> q d)"
  by (auto simp: find_one_def find_None_iff)

lemma find_one_Some_mem: "find_one q ds = Some d \<Longrightarrow> d \<in> set ds \<and> q d"
  by (auto simp: find_one_def find_Some_iff)


lemma apply_set_merge: "data ''_id'' = None \<Longrightarrow> apply_set q data ds = Inr (merge_first q data ds)"
  by (induction ds) (auto simp: ebind_def)



lemma update_one_status:
  "update_one q [(''status'', BBool b)] ds = Inr (merge_first q [''status'' \<mapsto> BBool b] ds)"
  by (simp add: update_one_def apply_set_merge)

lemma ids_below_fresh: "ids_below n ds \<Longrightarrow> d \<in> set ds \<Longrightarrow> \<not> has_id n d"
  by (auto simp: ids_below_def has_id_def list_all_iff split: option.splits bson.splits)

lemma insert_one_fresh:
  assumes "ids_below n ds" and "d ''_id'' = Some (BOid n)"
  shows "insert_one d ds = Inr (ds @ [d])"
proof -
  have "\<not> list_ex (\<lambda>e. e ''_id'' = d ''_id'') ds"
    using assms ids_below_fresh [of n ds] by (auto simp: list_ex_iff has_id_def)
  then show ?thesis
    by (simp add: insert_one_def)
qed

section \<open>Booking creation and deletion\<close>

lemma new_booking_id: "booking_of i data ''_id'' = Some (BOid i)"
  by (simp add: booking_of_def Booking_def)

lemma new_booking_property_id: "dict_get (booking_of i data) ''property_id'' = dict_get data ''property_id''"
  by (simp add: booking_of_def Booking_def dict_get_def)

lemma wf_book: "wf w \<Longrightarrow> ids_below (oid_counter w) (book w)"
  by (simp add: wf_def)

lemma post_insert:
  assumes "wf w"
  shows "insert_one (booking_of (oid_counter w) data) (book w) = Inr (book w @ [booking_of (oid_counter w) data])"
  using wf_book [OF assms] new_booking_id by (rule insert_one_fresh)

lemma post_referencing:
  assumes "wf w" and "ObjectId (dict_get data ''property_id'') = Inr p"
  shows "post_property_to_book_collection w data =
           (Inr (booking_created (oid_counter w)),
            w\<lparr>oid_counter := Suc (oid_counter w),
              book := book w @ [booking_of (oid_counter w) data],
              properties := merge_first (has_id p) [''status'' \<mapsto> BBool False] (properties w)\<rparr>)"
  using post_insert [OF assms(1), of data] assms(2) ObjectId_truthy [OF assms(2)]
  by (simp add: post_property_to_book_collection_def new_ObjectId_def Let_def update_one_status
      booking_of_def del: ObjectId.simps)

lemma post_unreferencing:
  assumes "wf w" and "\<not> truthy (dict_get data ''property_id'')"
  shows "post_property_to_book_collection w data =
           (Inr (booking_created (oid_counter w)),
            w\<lparr>oid_counter := Suc (oid_counter w),
              book := book w @ [booking_of (oid_counter w) data]\<rparr>)"
  using post_insert [OF assms(1), of data] assms(2)
  by (simp add: post_property_to_book_collection_def new_ObjectId_def Let_def booking_of_def)

lemma post_malformed:
  assumes "wf w" and "truthy (dict_get data ''property_id'')"
    and "ObjectId (dict_get data ''property_id'') = Inl e"
  shows "post_property_to_book_collection w data =
           (Inl e,
            w\<lparr>oid_counter := Suc (oid_counter w),
              book := book w @ [booking_of (oid_counter w) data]\<rparr>)"
  using post_insert [OF assms(1), of data] assms(2,3)
  by (simp add: post_property_to_book_collection_def new_ObjectId_def Let_def booking_of_def)


lemma find_one_append_fresh: "\<forall>d\<in>set ds. \<not> q d \<Longrightarrow> q x \<Longrightarrow> find_one q (ds @ [x]) = Some x"
  by (induction ds) (auto simp: find_one_def)

lemma delete_one_append_fresh: "\<forall>d\<in>set ds. \<not> q d \<Longrightarrow> q x \<Longrightarrow> delete_one q (ds @ [x]) = (ds, 1)"
  by (induction ds) auto

lemma delete_one_count: "snd (delete_one q ds) = (if find_one q ds = None then 0 else 1)"
  by (induction ds) (auto simp: find_one_def split: prod.splits)

lemma has_id_merge: "data ''_id'' = None \<Longrightarrow> has_id p (d ++ data) = has_id p d"
  by (simp add: has_id_def map_add_def)

lemma find_merge_first:
  "data ''_id'' = None \<Longrightarrow>
   find_one (has_id p) (merge_first (has_id p) data ds) = map_option (\<lambda>d. d ++ data) (find_one (has_id p) ds)"
  by (induction ds) (auto simp: find_one_def has_id_merge)

lemma status_after_merge:
  assumes "find_one (has_id p) ds \<noteq> None"
  shows "(case find_one (has_id p) (merge_first (has_id p) [''status'' \<mapsto> v] ds) of
            None \<Rightarrow> None | Some d \<Rightarrow> d ''status'') = Some v"
  using assms by (auto simp: find_merge_first)

lemma merge_first_twice:
  "data ''_id'' = None \<Longrightarrow>
   merge_first (has_id p) data' (merge_first (has_id p) data ds) = merge_first (has_id p) (data ++ data') ds"
  by (induction ds) (auto simp: has_id_merge)

lemma delete_found_referencing:
  assumes "ObjectId (BStr booking_id) = Inr b" and "find_one (has_id b) (book w) = Some e"
    and "ObjectId (dict_get e ''property_id'') = Inr p"
  shows "delete_book_data w booking_id =
           (Inr booking_deleted,
            w\<lparr>book := fst (delete_one (has_id b) (book w)),
              properties := merge_first (has_id p) [''status'' \<mapsto> BBool True] (properties w)\<rparr>)"
  using assms ObjectId_truthy [OF assms(3)] delete_one_count [of "has_id b" "book w"]
  by (simp add: delete_book_data_def Let_def update_one_status case_prod_beta del: ObjectId.simps)

lemma delete_found_unreferencing:
  assumes "ObjectId (BStr booking_id) = Inr b" and "find_one (has_id b) (book w) = Some e"
    and "\<not> truthy (dict_get e ''property_id'')"
  shows "delete_book_data w booking_id =
           (Inr booking_deleted, w\<lparr>book := fst (delete_one (has_id b) (book w))\<rparr>)"
  using assms delete_one_count [of "has_id b" "book w"]
  by (simp add: delete_book_data_def Let_def case_prod_beta del: ObjectId.simps)

lemma delete_found_malformed:
  assumes "ObjectId (BStr booking_id) = Inr b" and "find_one (has_id b) (book w) = Some e"
    and "truthy (dict_get e ''property_id'')" and "ObjectId (dict_get e ''property_id'') = Inl err"
  shows "delete_book_data w booking_id =
           (Inl err, w\<lparr>book := fst (delete_one (has_id b) (book w))\<rparr>)"
  using assms delete_one_count [of "has_id b" "book w"]
  by (simp add: delete_book_data_def Let_def case_prod_beta del: ObjectId.simps)

text \<open>
  Claim C3. For every property \<open>p\<close> present in the catalog, creating a booking that
  references \<open>p\<close> succeeds and sets the status of \<open>p\<close> to false, and then deleting that
  same booking, by the id that creation returned, succeeds and sets the status of \<open>p\<close>
  back to true.
\<close>

theorem booking_round_trip:
  assumes "wf w"
    and "find_one (has_id p) (properties w) \<noteq> None"
    and "ObjectId (dict_get data ''property_id'') = Inr p"
  shows "fst (post_property_to_book_collection w data) = Inr (booking_created (oid_counter w))
         \<and> status_of (snd (post_property_to_book_collection w data)) p = Some (BBool False)
         \<and> fst (delete_book_data (snd (post_property_to_book_collection w data))
                  (str_oid (oid_counter w))) = Inr booking_deleted
         \<and> status_of (snd (delete_book_data (snd (post_property_to_book_collection w data))
                  (str_oid (oid_counter w)))) p = Some (BBool True)"
proof -
  define n where "n = oid_counter w"
  define w1 where "w1 = snd (post_property_to_book_collection w data)"
  have post: "post_property_to_book_collection w data =
      (Inr (booking_created n),
       w\<lparr>oid_counter := Suc n, book := book w @ [booking_of n data],
         properties := merge_first (has_id p) [''status'' \<mapsto> BBool False] (properties w)\<rparr>)"
    unfolding n_def by (rule post_referencing [OF assms(1,3)])
  have w1: "book w1 = book w @ [booking_of n data]"
    "properties w1 = merge_first (has_id p) [''status'' \<mapsto> BBool False] (properties w)"
    by (simp_all add: w1_def post)
  have s1: "status_of w1 p = Some (BBool False)"
    unfolding status_of_def w1(2) by (rule status_after_merge [OF assms(2)])
  have fresh: "\<forall>d\<in>set (book w). \<not> has_id n d"
    unfolding n_def using ids_below_fresh [OF wf_book [OF assms(1)]] by blast
  have mine: "has_id n (booking_of n data)"
    by (simp add: has_id_def new_booking_id)
  have parse: "ObjectId (BStr (str_oid n)) = Inr n"
    using assms(1) by (simp only: n_def wf_def ObjectId_str_oid)
  have found: "find_one (has_id n) (book w1) = Some (booking_of n data)"
    unfolding w1(1) by (rule find_one_append_fresh [OF fresh mine])
  have ref: "ObjectId (dict_get (booking_of n data) ''property_id'') = Inr p"
    by (simp add: new_booking_property_id assms(3))
  have del: "delete_book_data w1 (str_oid n) =
      (Inr booking_deleted,
       w1\<lparr>book := fst (delete_one (has_id n) (book w1)),
          properties := merge_first (has_id p) [''status'' \<mapsto> BBool True] (properties w1)\<rparr>)"
    by (rule delete_found_referencing [OF parse found ref])
  have present: "find_one (has_id p) (properties w1) \<noteq> None"
    using assms(2) by (simp add: w1(2) find_merge_first)
  have s2: "status_of (snd (delete_book_data w1 (str_oid n))) p = Some (BBool True)"
    unfolding del status_of_def using status_after_merge [OF present, of "BBool True"] by simp
  show ?thesis
    using post s1 del s2 by (simp add: w1_def n_def)
qed

lemma wf_demo_world: "wf demo_world"
  by (simp add: wf_def demo_world_def demo_property_def ids_below_def distinct_ids_def)

theorem booking_round_trip_witness:
  "wf demo_world
   \<and> find_one (has_id 1) (properties demo_world) \<noteq> None
   \<and> ObjectId (dict_get [''property_id'' \<mapsto> BStr ''000000000000000000000001''] ''property_id'') = Inr 1
   \<and> fst (post_property_to_book_collection demo_world
            [''property_id'' \<mapsto> BStr ''000000000000000000000001'']) = Inr (booking_created 5)
   \<and> status_of (snd (post_property_to_book_collection demo_world
            [''property_id'' \<mapsto> BStr ''000000000000000000000001''])) 1 = Some (BBool False)
   \<and> fst (delete_book_data (snd (post_property_to_book_collection demo_world
            [''property_id'' \<mapsto> BStr ''000000000000000000000001''])) (str_oid 5)) = Inr booking_deleted
   \<and> status_of (snd (delete_book_data (snd (post_property_to_book_collection demo_world
            [''property_id'' \<mapsto> BStr ''000000000000000000000001''])) (str_oid 5))) 1 = Some (BBool True)"
proof -
  have a: "ObjectId (dict_get [''property_id'' \<mapsto> BStr ''000000000000000000000001''] ''property_id'') = Inr 1"
    by (simp add: hex_val_def dict_get_def is_space_def oid_of_bytes_def bytes_val_def)
  have b: "find_one (has_id 1) (properties demo_world) \<noteq> None"
    by (simp add: find_one_def demo_world_def demo_property_def has_id_def)
  have c: "oid_counter demo_world = 5"
    by (simp add: demo_world_def)
  show ?thesis
    using booking_round_trip [OF wf_demo_world b a] wf_demo_world a b
    by (simp add: c)
qed


section \<open>Signup and login responses\<close>

lemma wf_hosts: "wf w \<Longrightarrow> ids_below (oid_counter w) (hosts w)"
  by (simp add: wf_def)

lemma wf_guests: "wf w \<Longrightarrow> ids_below (oid_counter w) (guests w)"
  by (simp add: wf_def)

lemma ids_below_find_fresh: "ids_below n ds \<Longrightarrow> find_one (has_id n) ds = None"
  using ids_below_fresh [of n ds] by (auto simp: find_one_None)

lemma host_signup_conflict:
  "find_one (field_eq ''email'' (dict_get data ''email'')) (hosts w) \<noteq> None \<Longrightarrow>
   host_signup bc salt w data = (Inr email_exists, w)"
  by (simp add: host_signup_def Let_def)

lemma guest_signup_conflict:
  "find_one (field_eq ''email'' (dict_get data ''email'')) (guests w) \<noteq> None \<Longrightarrow>
   guest_signup bc salt w data = (Inr email_exists, w)"
  by (simp add: guest_signup_def Let_def)

lemma host_signup_ok:
  assumes "wf w" and "find_one (field_eq ''email'' (dict_get data ''email'')) (hosts w) = None"
    and "dict_get data ''password'' = BStr pw"
  shows "host_signup bc salt w data =
           (Inr (JObj [(''host_id'', BStr (str_oid (oid_counter w)))], 201),
            w\<lparr>oid_counter := Suc (oid_counter w),
              hosts := hosts w @ [[''_id'' \<mapsto> BOid (oid_counter w), ''email'' \<mapsto> dict_get data ''email'',
                                  ''password'' \<mapsto> BBin (hashpw bc pw salt)]]\<rparr>)"
proof -
  have "insert_one [''_id'' \<mapsto> BOid (oid_counter w), ''email'' \<mapsto> dict_get data ''email'',
                    ''password'' \<mapsto> BBin (hashpw bc pw salt)] (hosts w)
        = Inr (hosts w @ [[''_id'' \<mapsto> BOid (oid_counter w), ''email'' \<mapsto> dict_get data ''email'',
                           ''password'' \<mapsto> BBin (hashpw bc pw salt)]])"
    by (rule insert_one_fresh [OF wf_hosts [OF assms(1)]]) simp
  then show ?thesis
    using assms(2,3)
    by (simp add: host_signup_def Let_def hash_password_def ebind_def new_ObjectId_def)
qed

lemma guest_signup_ok:
  assumes "wf w" and "find_one (field_eq ''email'' (dict_get data ''email'')) (guests w) = None"
    and "dict_get data ''password'' = BStr pw"
  shows "guest_signup bc salt w data =
           (Inr (JObj [(''guest_id'', BStr (str_oid (oid_counter w)))], 201),
            w\<lparr>oid_counter := Suc (oid_counter w),
              guests := guests w @ [[''_id'' \<mapsto> BOid (oid_counter w), ''email'' \<mapsto> dict_get data ''email'',
                                    ''password'' \<mapsto> BBin (hashpw bc pw salt)]]\<rparr>)"
proof -
  have "insert_one [''_id'' \<mapsto> BOid (oid_counter w), ''email'' \<mapsto> dict_get data ''email'',
                    ''password'' \<mapsto> BBin (hashpw bc pw salt)] (guests w)
        = Inr (guests w @ [[''_id'' \<mapsto> BOid (oid_counter w), ''email'' \<mapsto> dict_get data ''email'',
                            ''password'' \<mapsto> BBin (hashpw bc pw salt)]])"
    by (rule insert_one_fresh [OF wf_guests [OF assms(1)]]) simp
  then show ?thesis
    using assms(2,3)
    by (simp add: guest_signup_def Let_def hash_password_def ebind_def new_ObjectId_def)
qed

text \<open>
  Claim C7. For every email: if it is already present in a role's partition, signup for
  that role fails with the conflict response (status 400) and adds no record; signup
  with the same email and a password under the other role's partition, where the email
  is not present, succeeds with status 201, returns a fresh identity and stores the
  record in that partition only. Host and guest emails are independent namespaces.
\<close>

theorem signup_partitions_independent:
  "(find_one (field_eq ''email'' (dict_get data ''email'')) (hosts w) \<noteq> None \<longrightarrow>
      host_signup bc salt w data = (Inr email_exists, w)
      \<and> (wf w \<and> dict_get data ''password'' = BStr pw
           \<and> find_one (field_eq ''email'' (dict_get data ''email'')) (guests w) = None \<longrightarrow>
         fst (guest_signup bc salt w data)
           = Inr (JObj [(''guest_id'', BStr (str_oid (oid_counter w)))], 201)
         \<and> find_one (has_id (oid_counter w)) (guests w) = None
         \<and> guests (snd (guest_signup bc salt w data))
             = guests w @ [[''_id'' \<mapsto> BOid (oid_counter w), ''email'' \<mapsto> dict_get data ''email'',
                            ''password'' \<mapsto> BBin (hashpw bc pw salt)]]
         \<and> hosts (snd (guest_signup bc salt w data)) = hosts w))
   \<and> (find_one (field_eq ''email'' (dict_get data ''email'')) (guests w) \<noteq> None \<longrightarrow>
      guest_signup bc salt w data = (Inr email_exists, w)
      \<and> (wf w \<and> dict_get data ''password'' = BStr pw
           \<and> find_one (field_eq ''email'' (dict_get data ''email'')) (hosts w) = None \<longrightarrow>
         fst (host_signup bc salt w data)
           = Inr (JObj [(''host_id'', BStr (str_oid (oid_counter w)))], 201)
         \<and> find_one (has_id (oid_counter w)) (hosts w) = None
         \<and> hosts (snd (host_signup bc salt w data))
             = hosts w @ [[''_id'' \<mapsto> BOid (oid_counter w), ''email'' \<mapsto> dict_get data ''email'',
                           ''password'' \<mapsto> BBin (hashpw bc pw salt)]]
         \<and> guests (snd (host_signup bc salt w data)) = guests w))"
  by (auto simp: host_signup_conflict guest_signup_conflict host_signup_ok guest_signup_ok
      ids_below_find_fresh wf_hosts wf_guests)



section \<open>Concrete runs of signup and login\<close>

lemma demo_ann_hosts:
  "find_one (field_eq ''email'' (BStr ''ann@example.org'')) (hosts demo_world)
     = Some [''_id'' \<mapsto> BOid 0, ''email'' \<mapsto> BStr ''ann@example.org'', ''password'' \<mapsto> BBin ''s1:secret'']"
  by (simp add: find_one_def demo_world_def field_eq_def)

lemma demo_ann_guests:
  "find_one (field_eq ''email'' (BStr ''ann@example.org'')) (guests demo_world) = None"
  by (simp add: find_one_def demo_world_def field_eq_def)

lemma demo_bob_guests:
  "find_one (field_eq ''email'' (BStr ''bob@example.org'')) (guests demo_world)
     = Some [''_id'' \<mapsto> BOid 4, ''email'' \<mapsto> BStr ''bob@example.org'', ''password'' \<mapsto> BBin ''s2:hunter2'']"
  by (simp add: find_one_def demo_world_def field_eq_def)

lemma demo_bob_hosts:
  "find_one (field_eq ''email'' (BStr ''bob@example.org'')) (hosts demo_world) = None"
  by (simp add: find_one_def demo_world_def field_eq_def)

lemma demo_counter: "oid_counter demo_world = 5"
  by (simp add: demo_world_def)

theorem signup_partitions_independent_witness:
  "find_one (field_eq ''email'' (BStr ''ann@example.org'')) (hosts demo_world) \<noteq> None
   \<and> find_one (field_eq ''email'' (BStr ''ann@example.org'')) (guests demo_world) = None
   \<and> find_one (field_eq ''email'' (BStr ''bob@example.org'')) (guests demo_world) \<noteq> None
   \<and> find_one (field_eq ''email'' (BStr ''bob@example.org'')) (hosts demo_world) = None
   \<and> wf demo_world
   \<and> host_signup demo_bcrypt ''s3'' demo_world
        [''email'' \<mapsto> BStr ''ann@example.org'', ''password'' \<mapsto> BStr ''pw'']
        = (Inr email_exists, demo_world)
   \<and> fst (guest_signup demo_bcrypt ''s3'' demo_world
        [''email'' \<mapsto> BStr ''ann@example.org'', ''password'' \<mapsto> BStr ''pw''])
        = Inr (JObj [(''guest_id'', BStr (str_oid 5))], 201)
   \<and> guest_signup demo_bcrypt ''s3'' demo_world
        [''email'' \<mapsto> BStr ''bob@example.org'', ''password'' \<mapsto> BStr ''pw'']
        = (Inr email_exists, demo_world)
   \<and> fst (host_signup demo_bcrypt ''s3'' demo_world
        [''email'' \<mapsto> BStr ''bob@example.org'', ''password'' \<mapsto> BStr ''pw''])
        = Inr (JObj [(''host_id'', BStr (str_oid 5))], 201)"
proof -
  have e1: "dict_get [''email'' \<mapsto> BStr ''ann@example.org'', ''password'' \<mapsto> BStr ''pw''] ''email''
              = BStr ''ann@example.org''"
    and p1: "dict_get [''email'' \<mapsto> BStr ''ann@example.org'', ''password'' \<mapsto> BStr ''pw''] ''password''
              = BStr ''pw''"
    and e2: "dict_get [''email'' \<mapsto> BStr ''bob@example.org'', ''password'' \<mapsto> BStr ''pw''] ''email''
              = BStr ''bob@example.org''"
    and p2: "dict_get [''email'' \<mapsto> BStr ''bob@example.org'', ''password'' \<mapsto> BStr ''pw''] ''password''
              = BStr ''pw''"
    by (simp_all add: dict_get_def)
  show ?thesis
    using signup_partitions_independent
            [of "[''email'' \<mapsto> BStr ''ann@example.org'', ''password'' \<mapsto> BStr ''pw'']" demo_world
                demo_bcrypt "''s3''" "''pw''"]
          signup_partitions_independent
            [of "[''email'' \<mapsto> BStr ''bob@example.org'', ''password'' \<mapsto> BStr ''pw'']" demo_world
                demo_bcrypt "''s3''" "''pw''"]
    unfolding e1 p1 e2 p2 demo_counter
    using demo_ann_hosts demo_ann_guests demo_bob_guests demo_bob_hosts wf_demo_world
    by simp
qed

section \<open>The availability invariant\<close>

lemma availability_inv_iff:
  "availability_inv w \<longleftrightarrow>
     (\<forall>d\<in>set (properties w). \<forall>p. d ''_id'' = Some (BOid p) \<longrightarrow>
        d ''status'' = Some (BBool (\<not> (\<exists>b\<in>set (book w). refers_to p b))))"
  unfolding availability_inv_def booked_def list_all_iff list_ex_iff
  by (auto split: option.splits bson.splits)

lemma distinct_ids_Cons:
  assumes "distinct_ids (d # ds)" and "has_id p d"
  shows "\<forall>e\<in>set ds. \<not> has_id p e"
proof (intro ballI notI)
  fix e
  assume e: "e \<in> set ds" "has_id p e"
  have fresh: "d ''_id'' \<notin> (\<lambda>d. d ''_id'') ` set ds"
    using assms(1) by (simp add: distinct_ids_def)
  have "e ''_id'' = d ''_id''"
    using e(2) assms(2) by (simp add: has_id_def)
  then have "d ''_id'' \<in> (\<lambda>d. d ''_id'') ` set ds"
    using e(1) by (metis imageI)
  with fresh show False by simp
qed

lemma distinct_ids_tail: "distinct_ids (d # ds) \<Longrightarrow> distinct_ids ds"
  by (simp add: distinct_ids_def)

lemma merge_first_map:
  "distinct_ids ds \<Longrightarrow>
   merge_first (has_id p) data ds = map (\<lambda>d. if has_id p d then d ++ data else d) ds"
proof (induction ds)
  case Nil
  show ?case by simp
next
  case (Cons d ds)
  show ?case
  proof (cases "has_id p d")
    case True
    have "\<forall>e\<in>set ds. \<not> has_id p e"
      using distinct_ids_Cons [OF Cons.prems True] .
    then have "map (\<lambda>d. if has_id p d then d ++ data else d) ds = ds"
      by (induction ds) auto
    then show ?thesis
      using True by simp
  next
    case False
    then show ?thesis
      using Cons.IH [OF distinct_ids_tail [OF Cons.prems]] by simp
  qed
qed

lemma refers_to_unique: "refers_to p b \<Longrightarrow> refers_to q b \<Longrightarrow> p = q"
  by (simp add: refers_to_def)

lemma set_delete_one:
  "find_one q ds = Some e \<Longrightarrow> set ds = insert e (set (fst (delete_one q ds)))"
proof (induction ds)
  case Nil
  then show ?case by (simp add: find_one_def)
next
  case (Cons d ds)
  show ?case
  proof (cases "q d")
    case True
    then have "e = d"
      using Cons.prems by (simp add: find_one_def)
    then show ?thesis
      using True by simp
  next
    case False
    then have "find_one q ds = Some e"
      using Cons.prems by (simp add: find_one_def)
    then have "set ds = insert e (set (fst (delete_one q ds)))"
      by (rule Cons.IH)
    then show ?thesis
      using False by (auto simp: case_prod_beta)
  qed
qed

lemma length_filter_delete_one:
  "find_one q ds = Some e \<Longrightarrow>
   length (filter P ds) = length (filter P (fst (delete_one q ds))) + (if P e then 1 else 0)"
proof (induction ds)
  case Nil
  then show ?case by (simp add: find_one_def)
next
  case (Cons d ds)
  show ?case
  proof (cases "q d")
    case True
    then have "e = d"
      using Cons.prems by (simp add: find_one_def)
    then show ?thesis
      using True by simp
  next
    case False
    then have "find_one q ds = Some e"
      using Cons.prems by (simp add: find_one_def)
    then have "length (filter P ds)
                 = length (filter P (fst (delete_one q ds))) + (if P e then 1 else 0)"
      by (rule Cons.IH)
    then show ?thesis
      using False by (simp add: case_prod_beta)
  qed
qed

lemma inv_status_write:
  assumes inv: "\<forall>d\<in>set ps. \<forall>q. d ''_id'' = Some (BOid q) \<longrightarrow> d ''status'' = Some (BBool (\<not> R q))"
    and other: "\<forall>q. q \<noteq> p \<longrightarrow> R' q = R q"
    and here: "v = (\<not> R' p)"
  shows "\<forall>d\<in>set (map (\<lambda>d. if has_id p d then d ++ [''status'' \<mapsto> BBool v] else d) ps).
           \<forall>q. d ''_id'' = Some (BOid q) \<longrightarrow> d ''status'' = Some (BBool (\<not> R' q))"
proof (intro ballI allI impI)
  fix d' q
  assume mem: "d' \<in> set (map (\<lambda>d. if has_id p d then d ++ [''status'' \<mapsto> BBool v] else d) ps)"
    and id: "d' ''_id'' = Some (BOid q)"
  then obtain d where d: "d \<in> set ps"
    and d': "d' = (if has_id p d then d ++ [''status'' \<mapsto> BBool v] else d)"
    by auto
  show "d' ''status'' = Some (BBool (\<not> R' q))"
  proof (cases "has_id p d")
    case True
    then have "q = p"
      using id d' by (simp add: has_id_def map_add_def)
    then show ?thesis
      using True d' here by simp
  next
    case False
    then have "q \<noteq> p"
      using id d' by (auto simp: has_id_def)
    then show ?thesis
      using False d' d id inv other by simp
  qed
qed

lemma wf_properties: "wf w \<Longrightarrow> distinct_ids (properties w)"
  by (simp add: wf_def)

lemma inv_post:
  assumes "wf w" and "availability_inv w"
  shows "availability_inv (snd (post_property_to_book_collection w data))"
proof -
  define n where "n = oid_counter w"
  define B where "B = booking_of n data"
  define pid where "pid = dict_get data ''property_id''"
  have Bpid: "dict_get B ''property_id'' = pid"
    by (simp add: B_def pid_def new_booking_property_id)
  have inv: "\<forall>d\<in>set (properties w). \<forall>q. d ''_id'' = Some (BOid q) \<longrightarrow>
               d ''status'' = Some (BBool (\<not> (\<exists>b\<in>set (book w). refers_to q b)))"
    using assms(2) by (simp add: availability_inv_iff)
  show ?thesis
  proof (cases "truthy pid")
    case False
    then have none: "\<And>q. \<not> refers_to q B"
      by (simp add: refers_to_def Bpid)
    have "post_property_to_book_collection w data =
            (Inr (booking_created n), w\<lparr>oid_counter := Suc n, book := book w @ [B]\<rparr>)"
      unfolding n_def B_def using False by (simp add: post_unreferencing [OF assms(1)] pid_def)
    then show ?thesis
      using inv none by (simp add: availability_inv_iff)
  next
    case True
    show ?thesis
    proof (cases "ObjectId pid")
      case (Inl e)
      then have none: "\<And>q. \<not> refers_to q B"
        by (simp add: refers_to_def Bpid)
      have "post_property_to_book_collection w data =
              (Inl e, w\<lparr>oid_counter := Suc n, book := book w @ [B]\<rparr>)"
        unfolding n_def B_def using True Inl by (simp add: post_malformed [OF assms(1)] pid_def)
      then show ?thesis
        using inv none by (simp add: availability_inv_iff)
    next
      case (Inr p)
      have ref: "\<And>q. refers_to q B \<longleftrightarrow> q = p"
        using True Inr by (auto simp: refers_to_def Bpid)
      have post: "post_property_to_book_collection w data =
              (Inr (booking_created n),
               w\<lparr>oid_counter := Suc n, book := book w @ [B],
                 properties := map (\<lambda>d. if has_id p d then d ++ [''status'' \<mapsto> BBool False] else d)
                                 (properties w)\<rparr>)"
        unfolding n_def B_def using Inr
        by (simp add: post_referencing [OF assms(1)] pid_def
            merge_first_map [OF wf_properties [OF assms(1)]])
      have "\<forall>d\<in>set (map (\<lambda>d. if has_id p d then d ++ [''status'' \<mapsto> BBool False] else d) (properties w)).
              \<forall>q. d ''_id'' = Some (BOid q) \<longrightarrow>
                d ''status'' = Some (BBool (\<not> (\<exists>b\<in>set (book w @ [B]). refers_to q b)))"
        by (rule inv_status_write [OF inv]) (auto simp: ref)
      then show ?thesis
        unfolding post availability_inv_iff by simp
    qed
  qed
qed

lemma inv_delete:
  assumes "wf w" and "availability_inv w"
    and sole: "\<forall>b e p. ObjectId (BStr booking_id) = Inr b \<and> find_one (has_id b) (book w) = Some e
                 \<and> refers_to p e \<longrightarrow> length (filter (refers_to p) (book w)) = 1"
  shows "availability_inv (snd (delete_book_data w booking_id))"
proof (cases "ObjectId (BStr booking_id)")
  case (Inl err)
  then show ?thesis
    using assms(2) by (simp add: delete_book_data_def)
next
  case (Inr b)
  show ?thesis
  proof (cases "find_one (has_id b) (book w)")
    case None
    then show ?thesis
      using assms(2) Inr by (simp add: delete_book_data_def)
  next
    case (Some e)
    define bs where "bs = fst (delete_one (has_id b) (book w))"
    define pid where "pid = dict_get e ''property_id''"
    have inv: "\<forall>d\<in>set (properties w). \<forall>q. d ''_id'' = Some (BOid q) \<longrightarrow>
                 d ''status'' = Some (BBool (\<not> (\<exists>x\<in>set (book w). refers_to q x)))"
      using assms(2) by (simp add: availability_inv_iff)
    have sets: "set (book w) = insert e (set bs)"
      unfolding bs_def by (rule set_delete_one [OF Some])
    have unref: "(\<forall>q. \<not> refers_to q e) \<Longrightarrow>
                 \<forall>d\<in>set (properties w). \<forall>q. d ''_id'' = Some (BOid q) \<longrightarrow>
                   d ''status'' = Some (BBool (\<not> (\<exists>x\<in>set bs. refers_to q x)))"
      using inv sets by simp
    show ?thesis
    proof (cases "truthy pid")
      case False
      then have none: "\<forall>q. \<not> refers_to q e"
        by (simp add: refers_to_def pid_def)
      have "delete_book_data w booking_id = (Inr booking_deleted, w\<lparr>book := bs\<rparr>)"
        unfolding bs_def using False
        by (simp add: delete_found_unreferencing [OF Inr Some] pid_def)
      then show ?thesis
        using unref [OF none] by (simp add: availability_inv_iff)
    next
      case True
      show ?thesis
      proof (cases "ObjectId pid")
        case (Inl err)
        then have none: "\<forall>q. \<not> refers_to q e"
          by (simp add: refers_to_def pid_def)
        have "delete_book_data w booking_id = (Inl err, w\<lparr>book := bs\<rparr>)"
          unfolding bs_def using True Inl
          by (simp add: delete_found_malformed [OF Inr Some] pid_def)
        then show ?thesis
          using unref [OF none] by (simp add: availability_inv_iff)
      next
        case p: (Inr p)
        have ref: "\<And>q. refers_to q e \<longleftrightarrow> q = p"
          using True p by (auto simp: refers_to_def pid_def)
        have "length (filter (refers_to p) (book w)) = 1"
          using sole Inr Some ref by blast
        then have "length (filter (refers_to p) bs) = 0"
          using length_filter_delete_one [OF Some, of "refers_to p"] ref by (simp add: bs_def)
        then have gone: "\<not> (\<exists>x\<in>set bs. refers_to p x)"
          by (simp add: filter_empty_conv)
        have other: "\<forall>q. q \<noteq> p \<longrightarrow>
                       (\<exists>x\<in>set bs. refers_to q x) = (\<exists>x\<in>set (book w). refers_to q x)"
          using sets ref by auto
        have del: "delete_book_data w booking_id =
                (Inr booking_deleted,
                 w\<lparr>book := bs,
                   properties := map (\<lambda>d. if has_id p d then d ++ [''status'' \<mapsto> BBool True] else d)
                                   (properties w)\<rparr>)"
          unfolding bs_def using p
          by (simp add: delete_found_referencing [OF Inr Some] pid_def
              merge_first_map [OF wf_properties [OF assms(1)]])
        have "\<forall>d\<in>set (map (\<lambda>d. if has_id p d then d ++ [''status'' \<mapsto> BBool True] else d) (properties w)).
                \<forall>q. d ''_id'' = Some (BOid q) \<longrightarrow>
                  d ''status'' = Some (BBool (\<not> (\<exists>x\<in>set bs. refers_to q x)))"
          by (rule inv_status_write [OF inv other]) (simp add: gone)
        then show ?thesis
          unfolding del availability_inv_iff by simp
      qed
    qed
  qed
qed

section \<open>Well-formedness is kept by the booking ledger\<close>

lemma ids_below_mono: "ids_below n ds \<Longrightarrow> n \<le> m \<Longrightarrow> ids_below m ds"
  unfolding ids_below_def list_all_iff
proof (intro ballI)
  fix d
  assume a: "\<forall>d\<in>set ds. case d ''_id'' of Some (BOid i) \<Rightarrow> i < n | _ \<Rightarrow> False"
    and nm: "n \<le> m" and d: "d \<in> set ds"
  from a d have "case d ''_id'' of Some (BOid i) \<Rightarrow> i < n | _ \<Rightarrow> False"
    by blast
  then show "case d ''_id'' of Some (BOid i) \<Rightarrow> i < m | _ \<Rightarrow> False"
    using nm by (simp split: option.splits bson.splits)
qed

lemma ids_below_snoc:
  "ids_below n ds \<Longrightarrow> d ''_id'' = Some (BOid n) \<Longrightarrow> ids_below (Suc n) (ds @ [d])"
  using ids_below_mono [of n ds "Suc n"] by (simp add: ids_below_def)

lemma distinct_ids_snoc:
  assumes "ids_below n ds" and "distinct_ids ds" and "d ''_id'' = Some (BOid n)"
  shows "distinct_ids (ds @ [d])"
proof -
  have "\<forall>e\<in>set ds. e ''_id'' \<noteq> d ''_id''"
    using ids_below_fresh [OF assms(1)] assms(3) by (auto simp: has_id_def)
  then show ?thesis
    using assms(2) by (auto simp: distinct_ids_def)
qed

lemma ids_merge_first:
  "data ''_id'' = None \<Longrightarrow>
   map (\<lambda>d. d ''_id'') (merge_first q data ds) = map (\<lambda>d. d ''_id'') ds"
  by (induction ds) (auto simp: map_add_def)

lemma ids_below_ids: "ids_below n ds = list_all (\<lambda>v. case v of Some (BOid i) \<Rightarrow> i < n | _ \<Rightarrow> False) (map (\<lambda>d. d ''_id'') ds)"
  by (simp add: ids_below_def list_all_iff)

lemma ids_below_merge_first:
  "data ''_id'' = None \<Longrightarrow> ids_below n (merge_first q data ds) = ids_below n ds"
  by (simp only: ids_below_ids ids_merge_first)

lemma distinct_ids_merge_first:
  "data ''_id'' = None \<Longrightarrow> distinct_ids (merge_first q data ds) = distinct_ids ds"
  by (simp only: distinct_ids_def ids_merge_first)

lemma set_delete_one_subset: "set (fst (delete_one q ds)) \<subseteq> set ds"
  by (induction ds) (auto simp: case_prod_beta)

lemma ids_below_delete_one: "ids_below n ds \<Longrightarrow> ids_below n (fst (delete_one q ds))"
  using set_delete_one_subset [of q ds] by (auto simp: ids_below_def list_all_iff)

lemma distinct_ids_delete_one: "distinct_ids ds \<Longrightarrow> distinct_ids (fst (delete_one q ds))"
proof (induction ds)
  case Nil
  then show ?case by simp
next
  case (Cons d ds)
  show ?case
  proof (cases "q d")
    case True
    then show ?thesis
      using Cons.prems by (simp add: distinct_ids_def)
  next
    case False
    have "(\<lambda>d. d ''_id'') ` set (fst (delete_one q ds)) \<subseteq> (\<lambda>d. d ''_id'') ` set ds"
      using set_delete_one_subset [of q ds] by blast
    then show ?thesis
      using False Cons.prems Cons.IH by (auto simp: distinct_ids_def case_prod_beta)
  qed
qed

lemma status_write_id: "[''status'' \<mapsto> v] ''_id'' = None"
  by simp

lemma wf_post:
  assumes "wf w" and "Suc (oid_counter w) < 16 ^ 24"
  shows "wf (snd (post_property_to_book_collection w data))"
proof -
  define n where "n = oid_counter w"
  define B where "B = booking_of n data"
  define w1 where "w1 = w\<lparr>oid_counter := Suc n, book := book w @ [B]\<rparr>"
  have Bid: "B ''_id'' = Some (BOid n)"
    by (simp add: B_def new_booking_id)
  have up: "\<And>ds. ids_below n ds \<Longrightarrow> ids_below (Suc n) ds"
    using ids_below_mono [of n _ "Suc n"] by simp
  have bk: "ids_below n (book w)" "distinct_ids (book w)"
    using assms(1) by (simp_all add: wf_def n_def)
  have b1: "ids_below (Suc n) (book w @ [B])"
    using bk(1) Bid by (rule ids_below_snoc)
  have b2: "distinct_ids (book w @ [B])"
    using bk Bid by (rule distinct_ids_snoc)
  have w1: "wf w1"
    using assms up b1 b2 by (simp add: wf_def w1_def n_def)
  have w2: "\<And>p v. wf (w1\<lparr>properties := merge_first (has_id p) [''status'' \<mapsto> v] (properties w)\<rparr>)"
    using w1 by (simp add: wf_def w1_def ids_below_merge_first distinct_ids_merge_first)
  show ?thesis
  proof (cases "truthy (dict_get data ''property_id'')")
    case False
    then show ?thesis
      using w1 by (simp add: post_unreferencing [OF assms(1)] w1_def n_def B_def)
  next
    case True
    show ?thesis
    proof (cases "ObjectId (dict_get data ''property_id'')")
      case (Inl e)
      then show ?thesis
        using w1 True by (simp add: post_malformed [OF assms(1)] w1_def n_def B_def)
    next
      case (Inr p)
      then show ?thesis
        using w2 [of p "BBool False"] by (simp add: post_referencing [OF assms(1)] w1_def n_def B_def)
    qed
  qed
qed

lemma wf_delete:
  assumes "wf w"
  shows "wf (snd (delete_book_data w booking_id))"
proof (cases "ObjectId (BStr booking_id)")
  case (Inl err)
  then show ?thesis
    using assms by (simp add: delete_book_data_def)
next
  case (Inr b)
  show ?thesis
  proof (cases "find_one (has_id b) (book w)")
    case None
    then show ?thesis
      using assms Inr by (simp add: delete_book_data_def)
  next
    case (Some e)
    define w1 where "w1 = w\<lparr>book := fst (delete_one (has_id b) (book w))\<rparr>"
    have w1: "wf w1"
      using assms ids_below_delete_one distinct_ids_delete_one by (simp add: wf_def w1_def)
    have w2: "\<And>p v. wf (w1\<lparr>properties := merge_first (has_id p) [''status'' \<mapsto> v] (properties w)\<rparr>)"
      using w1 by (simp add: wf_def w1_def ids_below_merge_first distinct_ids_merge_first)
    show ?thesis
    proof (cases "truthy (dict_get e ''property_id'')")
      case False
      then show ?thesis
        using w1 by (simp add: delete_found_unreferencing [OF Inr Some] w1_def)
    next
      case True
      show ?thesis
      proof (cases "ObjectId (dict_get e ''property_id'')")
        case (Inl err)
        then show ?thesis
          using w1 True by (simp add: delete_found_malformed [OF Inr Some] w1_def)
      next
        case p: (Inr p)
        then show ?thesis
          using w2 [of p "BBool True"] by (simp add: delete_found_referencing [OF Inr Some] w1_def)
      qed
    qed
  qed
qed

text \<open>
  Claim C4, amended. In a store with unique, already-issued ids where the availability
  invariant holds, every booking create preserves the invariant, and a booking delete
  preserves it whenever the deleted booking is the only booking that references its
  property (an unknown booking id, and a booking that references no property, preserve
  it too). Both operations keep the store well formed, so the statement applies again
  to the state they leave.
\<close>

theorem availability_preserved:
  assumes "wf w" and "availability_inv w"
  shows "availability_inv (snd (post_property_to_book_collection w data))
         \<and> (Suc (oid_counter w) < 16 ^ 24 \<longrightarrow> wf (snd (post_property_to_book_collection w data)))
         \<and> wf (snd (delete_book_data w booking_id))
         \<and> ((\<forall>b e p. ObjectId (BStr booking_id) = Inr b \<and> find_one (has_id b) (book w) = Some e
                 \<and> refers_to p e \<longrightarrow> length (filter (refers_to p) (book w)) = 1) \<longrightarrow>
             availability_inv (snd (delete_book_data w booking_id)))"
  using inv_post [OF assms] wf_post [OF assms(1)] wf_delete [OF assms(1)] inv_delete [OF assms]
  by blast

section \<open>Two bookings on one property\<close>

lemma demo_request_id: "ObjectId (dict_get demo_request ''property_id'') = Inr 1"
  by (simp add: demo_request_def dict_get_def hex_val_def is_space_def oid_of_bytes_def
      bytes_val_def)

lemma demo_inv: "availability_inv demo_world"
  by code_simp

lemma double_booking_booked:
  "booked (snd (delete_book_data
        (snd (post_property_to_book_collection
           (snd (post_property_to_book_collection demo_world demo_request)) demo_request))
        (str_oid 5))) 1"
  by code_simp

lemma double_booking_status:
  "status_of (snd (delete_book_data
        (snd (post_property_to_book_collection
           (snd (post_property_to_book_collection demo_world demo_request)) demo_request))
        (str_oid 5))) 1 = Some (BBool True)"
  by code_simp

lemma double_booking_inv:
  "\<not> availability_inv (snd (delete_book_data
        (snd (post_property_to_book_collection
           (snd (post_property_to_book_collection demo_world demo_request)) demo_request))
        (str_oid 5)))"
  by code_simp

text \<open>
  Claim C4, as stated, asks for the invariant after every booking delete, for any
  number of bookings per property. Two bookings are created on the first property of
  the small store and the first of them is deleted: the remaining booking still
  references the property, and its status is true.
\<close>

theorem availability_counterexample:
  "wf demo_world \<and> availability_inv demo_world
   \<and> booked (snd (delete_book_data
        (snd (post_property_to_book_collection
           (snd (post_property_to_book_collection demo_world demo_request)) demo_request))
        (str_oid 5))) 1
   \<and> status_of (snd (delete_book_data
        (snd (post_property_to_book_collection
           (snd (post_property_to_book_collection demo_world demo_request)) demo_request))
        (str_oid 5))) 1 = Some (BBool True)
   \<and> \<not> availability_inv (snd (delete_book_data
        (snd (post_property_to_book_collection
           (snd (post_property_to_book_collection demo_world demo_request)) demo_request))
        (str_oid 5)))"
  by (intro conjI wf_demo_world demo_inv double_booking_booked double_booking_status
      double_booking_inv)

theorem availability_preserved_witness:
  "wf demo_world \<and> availability_inv demo_world \<and> Suc (oid_counter demo_world) < 16 ^ 24
   \<and> wf (snd (post_property_to_book_collection demo_world demo_request))
   \<and> availability_inv (snd (post_property_to_book_collection demo_world demo_request))
   \<and> length (filter (refers_to 1) (book (snd (post_property_to_book_collection demo_world demo_request)))) = 1
   \<and> wf (snd (delete_book_data (snd (post_property_to_book_collection demo_world demo_request)) (str_oid 5)))
   \<and> availability_inv
        (snd (delete_book_data (snd (post_property_to_book_collection demo_world demo_request)) (str_oid 5)))"
proof -
  define w1 where "w1 = snd (post_property_to_book_collection demo_world demo_request)"
  define B where "B = booking_of 5 demo_request"
  have bound: "Suc (oid_counter demo_world) < 16 ^ 24"
    by (simp add: demo_world_def)
  note step1 = availability_preserved [OF wf_demo_world demo_inv, of demo_request "str_oid 5"]
  have wf1: "wf w1" and inv1: "availability_inv w1"
    using step1 bound by (simp_all add: w1_def)
  have "book w1 = book demo_world @ [booking_of (oid_counter demo_world) demo_request]"
    by (simp add: w1_def post_referencing [OF wf_demo_world demo_request_id])
  moreover have "book demo_world = []"
    by (simp add: demo_world_def)
  ultimately have bk: "book w1 = [B]"
    by (simp add: B_def demo_counter)
  have ref: "refers_to 1 B"
    using demo_request_id ObjectId_truthy [OF demo_request_id]
    by (simp add: refers_to_def B_def new_booking_property_id)
  have one: "length (filter (refers_to 1) (book w1)) = 1"
    using ref by (simp add: bk)
  have sole: "\<forall>b e p. ObjectId (BStr (str_oid 5)) = Inr b \<and> find_one (has_id b) (book w1) = Some e
                \<and> refers_to p e \<longrightarrow> length (filter (refers_to p) (book w1)) = 1"
  proof (intro allI impI)
    fix b e p
    assume a: "ObjectId (BStr (str_oid 5)) = Inr b \<and> find_one (has_id b) (book w1) = Some e
                \<and> refers_to p e"
    then have "e \<in> set (book w1)"
      using find_one_Some_mem [of "has_id b" "book w1" e] by simp
    then have "e = B"
      by (simp add: bk)
    then have "p = 1"
      using a ref refers_to_unique by blast
    then show "length (filter (refers_to p) (book w1)) = 1"
      using one by simp
  qed
  note step2 = availability_preserved [OF wf1 inv1, of demo_request "str_oid 5"]
  have wf2: "wf (snd (delete_book_data w1 (str_oid 5)))"
    and inv2: "availability_inv (snd (delete_book_data w1 (str_oid 5)))"
    using step2 sole by simp_all
  show ?thesis
    using wf_demo_world demo_inv bound wf1 inv1 one wf2 inv2 by (simp add: w1_def)
qed

section \<open>Identities that match nothing\<close>

lemma length_str_oid: "length (str_oid i) = 24"
  by (simp add: str_oid_def length_hexlify length_to_bytes)

lemma ObjectId_abc: "ObjectId (BStr ''abc'') = Inl InvalidId"
  by simp

lemma ObjectId_0A: "ObjectId (BStr ''00000000000000000000000A'') = Inr 10"
  by (simp add: hex_val_def is_space_def oid_of_bytes_def bytes_val_def)


lemma demo_booked_book: "book demo_booked = [booking_of 5 demo_request]"
  by (simp add: demo_booked_def)

lemma demo_booked_none: "find_one (has_id 10) (book demo_booked) = None"
  by (simp add: demo_booked_book find_one_def has_id_def new_booking_id)

lemma demo_booked_some: "find_one (has_id 5) (book demo_booked) \<noteq> None"
  by (simp add: demo_booked_book find_one_def has_id_def new_booking_id)

lemma demo_booked_status: "status_of demo_booked 1 = Some (BBool False)"
  by (simp add: status_of_def demo_booked_def find_one_def has_id_def demo_property_def)

text \<open>
  Claim C5, amended. For every booking id that \<^verbatim>\<open>ObjectId\<close> accepts and that is
  not present in the booking store, the booking delete operation returns the not-found
  response (status 404) and leaves the whole state unchanged: all bookings and all
  property status flags. For a booking id that \<^verbatim>\<open>ObjectId\<close> rejects, the
  operation raises that exception instead of answering not-found, also with the whole
  state unchanged.
\<close>

theorem delete_missing_booking:
  "(ObjectId (BStr booking_id) = Inr b \<and> find_one (has_id b) (book w) = None \<longrightarrow>
      delete_book_data w booking_id = (Inr booking_not_found, w))
   \<and> (ObjectId (BStr booking_id) = Inl e \<longrightarrow> delete_book_data w booking_id = (Inl e, w))"
  by (simp add: delete_book_data_def del: ObjectId.simps)

text \<open>
  Claim C5, as stated, promises not-found for every booking id that is not in the
  store. In the store with one booking, no booking has the id \<^verbatim>\<open>abc\<close>, and the
  delete raises \<^verbatim>\<open>InvalidId\<close> at \<^verbatim>\<open>ObjectId(booking_id)\<close>.
\<close>

theorem delete_malformed_booking_counterexample:
  "''abc'' \<notin> set (map (\<lambda>d. py_str (dict_get d ''_id'')) (book demo_booked))
   \<and> delete_book_data demo_booked ''abc'' = (Inl InvalidId, demo_booked)
   \<and> fst (delete_book_data demo_booked ''abc'') \<noteq> Inr booking_not_found"
proof -
  have "py_str (dict_get (booking_of 5 demo_request) ''_id'') = str_oid 5"
    by (simp add: dict_get_def new_booking_id)
  moreover have "str_oid 5 \<noteq> ''abc''"
    using length_str_oid [of 5] by auto
  ultimately have a: "''abc'' \<notin> set (map (\<lambda>d. py_str (dict_get d ''_id'')) (book demo_booked))"
    by (simp add: demo_booked_book)
  have b: "delete_book_data demo_booked ''abc'' = (Inl InvalidId, demo_booked)"
    by (simp add: delete_book_data_def)
  show ?thesis
    using a b by simp
qed

theorem delete_missing_booking_witness:
  "ObjectId (BStr ''00000000000000000000000A'') = Inr 10
   \<and> find_one (has_id 10) (book demo_booked) = None
   \<and> find_one (has_id 5) (book demo_booked) \<noteq> None
   \<and> status_of demo_booked 1 = Some (BBool False)
   \<and> delete_book_data demo_booked ''00000000000000000000000A'' = (Inr booking_not_found, demo_booked)
   \<and> ObjectId (BStr ''abc'') = Inl InvalidId
   \<and> delete_book_data demo_booked ''abc'' = (Inl InvalidId, demo_booked)"
  using delete_missing_booking [of "''00000000000000000000000A''" 10 demo_booked]
    delete_missing_booking [of "''abc''" _ demo_booked InvalidId]
    ObjectId_0A ObjectId_abc demo_booked_none demo_booked_some demo_booked_status
  by simp








section \<open>Bookings that reference no property\<close>






section \<open>Login responses\<close>






lemma guest_login_raises:
  assumes "find_one (field_eq ''email'' (dict_get data ''email'')) (guests w) = Some guest"
    and "guest ''password'' = Some stored"
    and "encode (dict_get data ''password'') = Inl e"
  shows "guest_login bc w data = (Inl e, w)"
  using assms
  by (simp add: guest_login_def Let_def dict_item_def ebind_def verify_password_def)







section \<open>Malformed requests\<close>

text \<open>A malformed property id aborts the update before anything is sent to the store.\<close>

lemma update_malformed_id:
  "ObjectId (BStr property_id) = Inl e \<Longrightarrow> update_property w property_id data = (Inl e, w)"
  by (simp add: update_property_def del: ObjectId.simps)

end
